theory Spec2Isabelle
  imports Complex_Main "HOL-Library.Word"
begin

unbundle bit_operations_syntax

section \<open>Data model\<close>

text \<open>
  The program is a Python script around the third-party \<open>hyperloglog\<close> package.
  Python strings are modelled as \<^typ>\<open>string\<close>, one \<^typ>\<open>char\<close> per code point
  (so the model covers the code points below 256); the functions on substrings are
  polymorphic in the character type. Python floats are modelled as exact reals:
  rounding is not part of the model, but a division by zero is, since Python raises there.
\<close>

datatype error =
    OSError                \<comment> \<open>\<open>open\<close> fails: the file does not exist or cannot be read\<close>
  | UnicodeDecodeError     \<comment> \<open>the bytes of the file are not valid UTF-8\<close>
  | ZeroDivisionError      \<comment> \<open>Python's float or int division by zero\<close>
  | InvalidReference       \<comment> \<open>a reference outside the heap; no Python program can produce one\<close>
  | InvalidParameter       \<comment> \<open>the specification's name for a rejected parameter\<close>
  | IncompatiblePrecision  \<comment> \<open>the specification's name for a merge of unequal precisions\<close>

text \<open>
  The file is opened with \<open>encoding='utf8'\<close> and strict decoding. A file is either
  valid UTF-8, given by the text its bytes decode to, or not valid UTF-8. A file system
  maps a path to the file, \<open>None\<close> when the file cannot be opened.
\<close>

datatype file_content = Utf8 string | NotUtf8

type_synonym filesystem = "string \<rightharpoonup> file_content"

section \<open>Reading lines\<close>

definition LF :: char where
  "LF = CHR 0x0A"

definition CR :: char where
  "CR = CHR 0x0D"

text \<open>
  \<open>open(filename, 'r')\<close> reads in text mode with universal newlines: \<open>\r\n\<close> and a lone
  \<open>\r\<close> both arrive as \<open>\n\<close>.
\<close>

fun translate_newlines :: "string \<Rightarrow> string" where
  "translate_newlines [] = []"
| "translate_newlines [c] = [if c = CR then LF else c]"
| "translate_newlines (c # d # cs) =
     (if c = CR \<and> d = LF then LF # translate_newlines cs
      else if c = CR then LF # translate_newlines (d # cs)
      else c # translate_newlines (d # cs))"

text \<open>
  \<open>for line in datafile\<close>: each line keeps its terminating \<open>\n\<close>; the last line has none
  when the text does not end in one.
\<close>

fun file_lines :: "string \<Rightarrow> string list" where
  "file_lines [] = []"
| "file_lines (c # cs) =
     (if c = LF then [c] # file_lines cs
      else (case file_lines cs of
              [] \<Rightarrow> [[c]]
            | l # ls \<Rightarrow> (c # l) # ls))"

text \<open>
  \<open>str.isspace\<close> on one character, for the code points below 256: the ASCII controls
  9 to 13 and 28 to 31, the space, NEL (133) and the no-break space (160).
\<close>

definition isspace :: "char \<Rightarrow> bool" where
  "isspace c = ((of_char c :: nat) \<in> set [9, 10, 11, 12, 13, 28, 29, 30, 31, 32, 133, 160])"

text \<open>\<open>str.strip()\<close> with no argument: all leading and all trailing whitespace goes.\<close>

definition lstrip :: "string \<Rightarrow> string" where
  "lstrip s = dropWhile isspace s"

definition rstrip :: "string \<Rightarrow> string" where
  "rstrip s = rev (dropWhile isspace (rev s))"

definition strip :: "string \<Rightarrow> string" where
  "strip s = rstrip (lstrip s)"

text \<open>
  \<open>read_file\<close> is a generator; the model returns the whole sequence it yields when it
  is run to its end, or the error that ends it: \<open>OSError\<close> from \<open>open\<close>, or
  \<open>UnicodeDecodeError\<close> from the decoder when the bytes are not valid UTF-8.
\<close>

definition read_file :: "filesystem \<Rightarrow> string \<Rightarrow> error + string list" where
  "read_file fs filename =
     (case fs filename of
        None \<Rightarrow> Inl OSError
      | Some NotUtf8 \<Rightarrow> Inl UnicodeDecodeError
      | Some (Utf8 text) \<Rightarrow> Inr (map strip (file_lines (translate_newlines text))))"

section \<open>Substrings\<close>

text \<open>
  The Python slice \<open>line[j:i]\<close> for indices that are not negative: both ends are clamped
  to the length, and the slice is empty when \<open>i \<le> j\<close>.
\<close>

definition py_slice :: "'a list \<Rightarrow> nat \<Rightarrow> nat \<Rightarrow> 'a list" where
  "py_slice line j i = take (i - j) (drop j line)"

text \<open>
  \<open>np.arange(1, size+1)\<close> is \<open>[1..<size + 1]\<close> and \<open>np.arange(0, i)\<close> is \<open>[0..<i]\<close>; the
  yields are collected in order.
\<close>

definition obtain_substrings :: "'a list \<Rightarrow> 'a list list" where
  "obtain_substrings line =
     (let size = length line
      in concat (map (\<lambda>i. map (\<lambda>j. py_slice line j i) [0..<i]) [1..<size + 1]))"

definition find_substrings_from_file :: "filesystem \<Rightarrow> string \<Rightarrow> error + string list" where
  "find_substrings_from_file fs filename =
     (case read_file fs filename of
        Inl e \<Rightarrow> Inl e
      | Inr lines \<Rightarrow> Inr (concat (map obtain_substrings lines)))"

section \<open>The interface of the hyperloglog package\<close>

text \<open>
  The package is not part of the repository. The script uses four of its operations, and
  the functions of the script take them as a parameter: the constructor
  \<open>HyperLogLog(relative_error)\<close>, \<open>hll.add(item)\<close> (the new state of \<open>hll\<close>),
  \<open>len(hll)\<close> (a Python \<open>len\<close> is never negative) and \<open>self.update(other)\<close> (the new
  state of \<open>self\<close>; the specification lets a merge change its first argument only).
\<close>

record 'h hll_lib =
  lib_new :: "real \<Rightarrow> error + 'h"
  lib_add :: "string \<Rightarrow> 'h \<Rightarrow> 'h"
  lib_len :: "'h \<Rightarrow> nat"
  lib_update :: "'h \<Rightarrow> 'h \<Rightarrow> error + 'h"

text \<open>
  Sketches are mutable Python objects. The heap is the list of the objects allocated so
  far, a reference is an index into it, and every function that can touch an object takes
  the heap and returns it.
\<close>

type_synonym 'h heap = "'h list"

section \<open>Building a sketch from a file\<close>

text \<open>
  The constructor runs first, then \<open>hll.add("")\<close>; the file is opened when the loop asks
  the generator for its first item, so a failing read surfaces after both. The sketch is
  then unreachable, and the heap shows it as \<open>hll.add("")\<close> left it.
\<close>

definition create_hll ::
  "'h hll_lib \<Rightarrow> filesystem \<Rightarrow> 'h heap \<Rightarrow> string \<Rightarrow> real \<Rightarrow> (error + nat) \<times> 'h heap" where
  "create_hll lib fs heap filename relative_error =
     (case lib_new lib relative_error of
        Inl e \<Rightarrow> (Inl e, heap)
      | Inr fresh \<Rightarrow>
          (let hll = length heap;
               heap1 = heap @ [fresh];
               heap2 = heap1[hll := lib_add lib [] (heap1 ! hll)]
           in case find_substrings_from_file fs filename of
                Inl e \<Rightarrow> (Inl e, heap2)
              | Inr substrings \<Rightarrow>
                  (Inr hll,
                   fold (\<lambda>substring hp. hp[hll := lib_add lib substring (hp ! hll)])
                     substrings heap2)))"

section \<open>Metrics\<close>

text \<open>
  The three divisions are evaluated in the order of the source; Python raises
  \<open>ZeroDivisionError\<close> at the first zero denominator. The result is
  \<open>(lower_bound, substrings, upper_bound, abs_error)\<close>.
\<close>

definition calculate_metrics ::
  "'h hll_lib \<Rightarrow> 'h heap \<Rightarrow> nat \<Rightarrow> real \<Rightarrow> (error + real \<times> nat \<times> real \<times> real) \<times> 'h heap" where
  "calculate_metrics lib heap hll relative_error =
     (if length heap \<le> hll then (Inl InvalidReference, heap)
      else
        (let substrings = lib_len lib (heap ! hll)
         in if 1 + relative_error = 0 then (Inl ZeroDivisionError, heap)
            else
              (let lower_bound = 1 / (1 + relative_error) * real substrings
               in if 1 - relative_error = 0 then (Inl ZeroDivisionError, heap)
                  else
                    (let upper_bound = 1 / (1 - relative_error) * real substrings;
                         abs_error = relative_error / (1 + relative_error) * real substrings
                     in (Inr (lower_bound, substrings, upper_bound, abs_error), heap)))))"

section \<open>The script\<close>

text \<open>\<open>copy.deepcopy\<close>: a new object, equal to the original and sharing nothing with it.\<close>

definition deepcopy :: "'h heap \<Rightarrow> nat \<Rightarrow> nat \<times> 'h heap" where
  "deepcopy heap r = (length heap, heap @ [heap ! r])"

text \<open>
  Lines 144 and 145 of the script: \<open>hll_combined = copy.deepcopy(hll_en)\<close>, then
  \<open>hll_combined.update(hll_dk)\<close>.
\<close>

definition merge_step ::
  "'h hll_lib \<Rightarrow> 'h heap \<Rightarrow> nat \<Rightarrow> nat \<Rightarrow> (error + nat) \<times> 'h heap" where
  "merge_step lib heap hll_en hll_dk =
     (if length heap \<le> hll_en \<or> length heap \<le> hll_dk then (Inl InvalidReference, heap)
      else
        (case deepcopy heap hll_en of
           (hll_combined, heap1) \<Rightarrow>
             (case lib_update lib (heap1 ! hll_combined) (heap1 ! hll_dk) of
                Inl e \<Rightarrow> (Inl e, heap1)
              | Inr merged \<Rightarrow> (Inr hll_combined, heap1[hll_combined := merged]))))"

text \<open>
  The variables of the script when it ends. \<open>print_estimates\<close> only formats its four
  arguments, so the three calls are recorded by their arguments.
\<close>

record script_state =
  hll_dk :: nat
  hll_en :: nat
  hll_combined :: nat
  dk_metrics :: "real \<times> nat \<times> real"
  dk_abs_err :: real
  en_metrics :: "real \<times> nat \<times> real"
  en_abs_err :: real
  comb_abs_err :: real
  comb_low :: real
  comb_est :: nat
  comb_upp :: real
  printed :: "(string \<times> real \<times> nat \<times> real) list"

definition script ::
  "'h hll_lib \<Rightarrow> filesystem \<Rightarrow> 'h heap \<Rightarrow> (error + script_state) \<times> 'h heap" where
  "script lib fs heap0 =
     (let relative_error = 0.01
      in case create_hll lib fs heap0 ''words_danish.txt'' relative_error of
           (Inl e, heap1) \<Rightarrow> (Inl e, heap1)
         | (Inr dk, heap1) \<Rightarrow>
      (case create_hll lib fs heap1 ''words_english.txt'' relative_error of
           (Inl e, heap2) \<Rightarrow> (Inl e, heap2)
         | (Inr en, heap2) \<Rightarrow>
      (case calculate_metrics lib heap2 dk relative_error of
           (Inl e, heap3) \<Rightarrow> (Inl e, heap3)
         | (Inr (dk_low, dk_n, dk_upp, dk_err), heap3) \<Rightarrow>
      (case calculate_metrics lib heap3 en relative_error of
           (Inl e, heap4) \<Rightarrow> (Inl e, heap4)
         | (Inr (en_low, en_n, en_upp, en_err), heap4) \<Rightarrow>
      (case merge_step lib heap4 en dk of
           (Inl e, heap5) \<Rightarrow> (Inl e, heap5)
         | (Inr combined, heap5) \<Rightarrow>
             (let abs_err = dk_err + en_err;
                  low = real (lib_len lib (heap5 ! combined)) - abs_err;
                  est = lib_len lib (heap5 ! combined);
                  upp = real (lib_len lib (heap5 ! combined)) + abs_err
              in (Inr \<lparr>hll_dk = dk, hll_en = en, hll_combined = combined,
                       dk_metrics = (dk_low, dk_n, dk_upp), dk_abs_err = dk_err,
                       en_metrics = (en_low, en_n, en_upp), en_abs_err = en_err,
                       comb_abs_err = abs_err, comb_low = low, comb_est = est, comb_upp = upp,
                       printed = [(''Danish'', dk_low, dk_n, dk_upp),
                                  (''English'', en_low, en_n, en_upp),
                                  (''Combined'', low, est, upp)]\<rparr>,
                  heap5)))))))"

text \<open>
  An instance of the interface that records what the script does to a sketch: its state is
  the sequence of the items added so far, its length the number of distinct items.
\<close>

definition trace_lib :: "string list hll_lib" where
  "trace_lib =
     \<lparr>lib_new = (\<lambda>relative_error. Inr []),
      lib_add = (\<lambda>item log. log @ [item]),
      lib_len = (\<lambda>log. length (remdups log)),
      lib_update = (\<lambda>log other. Inr (log @ other))\<rparr>"

section \<open>The sketch of the specification\<close>

text \<open>
  Modelled from the spec: the sketch of section 3, a precision \<open>p\<close> and \<open>m = 2^p\<close>
  registers. The package that implements it is not under \<open>src/\<close>.
\<close>

record sketch =
  precision :: nat
  registers :: "nat list"

text \<open>The number of binary digits of a number: 0 for 0, 3 for 5.\<close>

fun bit_length :: "nat \<Rightarrow> nat" where
  "bit_length n = (if n = 0 then 0 else Suc (bit_length (n div 2)))"

declare bit_length.simps [simp del]

text \<open>
  Modelled from the spec: section 4.2, the rank of a hash. The bits above the low \<open>p\<close>
  ones form a field of \<open>64 - p\<close> bits; the rank is the position of its leftmost set bit,
  counted from 1, and \<open>(64 - p) + 1\<close> when the field is zero.
\<close>

definition rank :: "nat \<Rightarrow> 64 word \<Rightarrow> nat" where
  "rank p h = (64 - p) + 1 - bit_length (unat (drop_bit p h))"

text \<open>
  Modelled from the spec: section 4.2, \<open>add(item)\<close>. The hash function is a parameter:
  the specification asks for a deterministic 64-bit hash and names none. The low \<open>p\<close> bits
  select the register \<open>j\<close>, which becomes \<open>max(registers[j], rank)\<close>. The index is in range
  for every sketch with \<open>2^p\<close> registers; a sketch without that invariant is left as it is.
\<close>

definition sketch_add :: "(string \<Rightarrow> 64 word) \<Rightarrow> string \<Rightarrow> sketch \<Rightarrow> sketch" where
  "sketch_add hash item s =
     (let h = hash item;
          j = unat (h AND mask (precision s));
          r = rank (precision s) h
      in if j < length (registers s)
         then s\<lparr>registers := (registers s)[j := max (registers s ! j) r]\<rparr>
         else s)"

text \<open>
  Modelled from the spec: section 4.1, \<open>create(relative_error)\<close>. The precision is the
  smallest \<open>p\<close> with \<open>1.04 / sqrt(2^p) \<le> relative_error\<close>, written without the square
  root (both sides are positive); a relative error outside \<open>(0, 1)\<close> and a precision
  outside 4 to 16 are rejected.
\<close>

definition sketch_create :: "real \<Rightarrow> error + sketch" where
  "sketch_create relative_error =
     (if \<not> (0 < relative_error \<and> relative_error < 1) then Inl InvalidParameter
      else
        (case find (\<lambda>p. 1.04 ^ 2 \<le> relative_error ^ 2 * 2 ^ p) [0..<17] of
           None \<Rightarrow> Inl InvalidParameter
         | Some p \<Rightarrow>
             if p < 4 then Inl InvalidParameter
             else Inr \<lparr>precision = p, registers = replicate (2 ^ p) 0\<rparr>))"

text \<open>
  Modelled from the spec: section 4.5, \<open>merge(a, b)\<close> in place on \<open>a\<close>. Unequal precisions
  are an error; otherwise each register of \<open>a\<close> becomes the maximum of the two.
\<close>

definition sketch_merge :: "sketch \<Rightarrow> sketch \<Rightarrow> error + sketch" where
  "sketch_merge a b =
     (if precision a \<noteq> precision b then Inl IncompatiblePrecision
      else Inr (a\<lparr>registers := map2 max (registers a) (registers b)\<rparr>))"

text \<open>
  Modelled from the spec: the package as the specification describes it. The estimator
  of section 4.3 is a read-only query of the sketch; its constants are not given, so it
  is a parameter, as the hash function is.
\<close>

definition spec_lib :: "(string \<Rightarrow> 64 word) \<Rightarrow> (sketch \<Rightarrow> nat) \<Rightarrow> sketch hll_lib" where
  "spec_lib hash estimate =
     \<lparr>lib_new = sketch_create,
      lib_add = sketch_add hash,
      lib_len = estimate,
      lib_update = sketch_merge\<rparr>"

section \<open>The line source as the claim words it\<close>

text \<open>
  From the words of claim C6, to compare with \<open>read_file\<close>: a line with exactly its
  trailing line terminator removed and every other character kept.
\<close>

definition drop_line_terminator :: "string \<Rightarrow> string" where
  "drop_line_terminator line = (if line \<noteq> [] \<and> last line = LF then butlast line else line)"

section \<open>Proof device: the index pairs of the two loops\<close>

text \<open>
  The pairs \<open>(j, i)\<close> in the order in which the loops of \<open>obtain_substrings\<close> visit them.
\<close>

definition slice_indices :: "nat \<Rightarrow> (nat \<times> nat) list" where
  "slice_indices n = concat (map (\<lambda>i. map (\<lambda>j. (j, i)) [0..<i]) [1..<n + 1])"

section \<open>Substrings: properties\<close>

lemma slice_indices_Suc:
  "slice_indices (Suc n) = slice_indices n @ map (\<lambda>j. (j, Suc n)) [0..<Suc n]"
  by (simp add: slice_indices_def)

lemma set_slice_indices: "set (slice_indices n) = {(j, i). j < i \<and> i \<le> n}"
proof (induction n)
  case 0
  show ?case by (simp add: slice_indices_def)
next
  case (Suc n)
  have "set (slice_indices (Suc n)) = set (slice_indices n) \<union> {(j, i). j < i \<and> i = Suc n}"
    by (auto simp: slice_indices_Suc)
  also have "\<dots> = {(j, i). j < i \<and> i \<le> Suc n}"
    using Suc by (auto simp: le_Suc_eq)
  finally show ?case .
qed

lemma distinct_slice_indices: "distinct (slice_indices n)"
proof (induction n)
  case 0
  show ?case by (simp add: slice_indices_def)
next
  case (Suc n)
  have "distinct (map (\<lambda>j. (j, Suc n)) [0..<Suc n])"
    by (auto simp: distinct_map inj_on_def)
  moreover have "set (slice_indices n) \<inter> set (map (\<lambda>j. (j, Suc n)) [0..<Suc n]) = {}"
    by (auto simp: set_slice_indices)
  ultimately show ?case
    using Suc by (simp add: slice_indices_Suc del: upt_Suc map_append)
qed

lemma length_slice_indices: "2 * length (slice_indices n) = n * (n + 1)"
  by (induction n) (simp_all add: slice_indices_Suc slice_indices_def [of 0])

lemma obtain_substrings_slice_indices:
  "obtain_substrings w = map (\<lambda>(j, i). py_slice w j i) (slice_indices (length w))"
  by (simp add: obtain_substrings_def slice_indices_def map_concat comp_def Let_def)

lemma py_slice_nonempty: "j < i \<Longrightarrow> i \<le> length w \<Longrightarrow> py_slice w j i \<noteq> []"
  by (simp add: py_slice_def)

lemma py_slice_decompose:
  assumes "j \<le> i"
  shows "take j w @ py_slice w j i @ drop i w = w"
proof -
  have "take (i - j) (drop j w) @ drop (i - j) (drop j w) = drop j w"
    by (rule append_take_drop_id)
  moreover have "drop (i - j) (drop j w) = drop i w"
    using assms by simp
  ultimately have "py_slice w j i @ drop i w = drop j w"
    by (simp add: py_slice_def)
  then show ?thesis
    by simp
qed

lemma py_slice_infix: "py_slice (pre @ s @ suf) (length pre) (length pre + length s) = s"
  by (simp add: py_slice_def)

lemma set_obtain_substrings:
  "set (obtain_substrings w) = {s. s \<noteq> [] \<and> (\<exists>pre suf. w = pre @ s @ suf)}"
proof (intro set_eqI iffI)
  fix s assume "s \<in> set (obtain_substrings w)"
  then obtain j i where ji: "j < i" "i \<le> length w" and s: "s = py_slice w j i"
    by (auto simp: obtain_substrings_slice_indices set_slice_indices)
  from ji have "take j w @ py_slice w j i @ drop i w = w"
    by (intro py_slice_decompose) simp
  then have "\<exists>pre suf. w = pre @ s @ suf"
    unfolding s by metis
  moreover have "s \<noteq> []"
    unfolding s using ji by (rule py_slice_nonempty)
  ultimately show "s \<in> {s. s \<noteq> [] \<and> (\<exists>pre suf. w = pre @ s @ suf)}"
    by blast
next
  fix s assume "s \<in> {s. s \<noteq> [] \<and> (\<exists>pre suf. w = pre @ s @ suf)}"
  then obtain pre suf where w: "w = pre @ s @ suf" and ne: "s \<noteq> []" by blast
  have "(length pre, length pre + length s) \<in> set (slice_indices (length w))"
    using ne by (simp add: set_slice_indices w)
  then have "(\<lambda>(j, i). py_slice w j i) (length pre, length pre + length s)
      \<in> (\<lambda>(j, i). py_slice w j i) ` set (slice_indices (length w))"
    by (rule imageI)
  then have "py_slice w (length pre) (length pre + length s) \<in> set (obtain_substrings w)"
    by (simp add: obtain_substrings_slice_indices)
  then show "s \<in> set (obtain_substrings w)"
    by (simp add: w py_slice_infix)
qed

text \<open>
  C2. For every string \<open>w\<close> of length \<open>n\<close>, \<open>obtain_substrings w\<close> yields one slice
  \<open>w[j:i]\<close> for each index pair with \<open>0 \<le> j < i \<le> n\<close>, each pair once; the values
  yielded are exactly the non-empty contiguous substrings of \<open>w\<close>, \<open>w\<close> itself among
  them when it is not empty; and the number of yields is \<open>n * (n + 1) / 2\<close>.
\<close>

theorem obtain_substrings_exhaustive:
  "(\<exists>ps. distinct ps \<and> set ps = {(j, i). j < i \<and> i \<le> length w}
      \<and> obtain_substrings w = map (\<lambda>(j, i). py_slice w j i) ps)
   \<and> set (obtain_substrings w) = {s. s \<noteq> [] \<and> (\<exists>pre suf. w = pre @ s @ suf)}
   \<and> (w \<noteq> [] \<longrightarrow> w \<in> set (obtain_substrings w))
   \<and> length (obtain_substrings w) = length w * (length w + 1) div 2"
proof (intro conjI impI)
  show "\<exists>ps. distinct ps \<and> set ps = {(j, i). j < i \<and> i \<le> length w}
      \<and> obtain_substrings w = map (\<lambda>(j, i). py_slice w j i) ps"
    using distinct_slice_indices set_slice_indices obtain_substrings_slice_indices
    by blast
next
  show "set (obtain_substrings w) = {s. s \<noteq> [] \<and> (\<exists>pre suf. w = pre @ s @ suf)}"
    by (rule set_obtain_substrings)
next
  assume "w \<noteq> []"
  moreover have "w = [] @ w @ []"
    by simp
  ultimately show "w \<in> set (obtain_substrings w)"
    unfolding set_obtain_substrings by blast
next
  have "2 * length (obtain_substrings w) = length w * (length w + 1)"
    by (simp add: obtain_substrings_slice_indices length_slice_indices)
  then show "length (obtain_substrings w) = length w * (length w + 1) div 2"
    by linarith
qed

theorem obtain_substrings_exhaustive_witness:
  "obtain_substrings ''cat'' = [''c'', ''ca'', ''a'', ''cat'', ''at'', ''t'']
   \<and> ''cat'' \<in> set (obtain_substrings ''cat'')
   \<and> length (obtain_substrings ''cat'') = 6"
proof -
  note all = obtain_substrings_exhaustive [of "''cat''"]
  have yields: "obtain_substrings ''cat'' = [''c'', ''ca'', ''a'', ''cat'', ''at'', ''t'']"
    by (simp add: obtain_substrings_def py_slice_def upt_rec)
  from all have "''cat'' \<noteq> [] \<longrightarrow> ''cat'' \<in> set (obtain_substrings ''cat'')"
    by (elim conjE)
  then have whole: "''cat'' \<in> set (obtain_substrings ''cat'')"
    by simp
  from all have
    "length (obtain_substrings ''cat'') = length ''cat'' * (length ''cat'' + 1) div 2"
    by (elim conjE)
  then have count: "length (obtain_substrings ''cat'') = 6"
    by simp
  from yields whole count show ?thesis
    by (intro conjI)
qed

section \<open>The sketch: idempotent add\<close>

text \<open>
  C7. For every item \<open>x\<close> and every sketch, adding \<open>x\<close> a second time leaves the sketch as
  the first add left it, and so leaves every function of the sketch, the estimate among
  them, unchanged.
\<close>

theorem sketch_add_idempotent:
  "sketch_add hash x (sketch_add hash x s) = sketch_add hash x s
   \<and> estimate (sketch_add hash x (sketch_add hash x s)) = estimate (sketch_add hash x s)"
  by (simp add: sketch_add_def Let_def)

section \<open>Metrics: properties\<close>

lemma calculate_metrics_defined:
  assumes "hll < length heap" "e \<noteq> 1" "e \<noteq> - 1"
  shows "calculate_metrics lib heap hll e =
    (Inr (1 / (1 + e) * real (lib_len lib (heap ! hll)), lib_len lib (heap ! hll),
          1 / (1 - e) * real (lib_len lib (heap ! hll)),
          e / (1 + e) * real (lib_len lib (heap ! hll))), heap)"
  using assms by (simp add: calculate_metrics_def Let_def add_eq_0_iff)

lemma calculate_metrics_zero_division:
  assumes "hll < length heap" "e = 1 \<or> e = - 1"
  shows "calculate_metrics lib heap hll e = (Inl ZeroDivisionError, heap)"
  using assms by (auto simp add: calculate_metrics_def Let_def)

text \<open>
  C8. \<open>calculate_metrics\<close> leaves the heap, and so the sketch it is given, as it found it,
  whatever the relative error and whether it returns or raises.
\<close>

theorem calculate_metrics_read_only:
  "snd (calculate_metrics lib heap hll relative_error) = heap"
  by (simp add: calculate_metrics_def Let_def)

text \<open>
  C1, as the code has it. For every sketch and every relative error other than \<open>1\<close> and
  \<open>-1\<close>, \<open>calculate_metrics\<close> returns \<open>(n / (1 + \<epsilon>), n, n / (1 - \<epsilon>), \<epsilon> / (1 + \<epsilon>) * n)\<close>,
  where \<open>n\<close> is the length of the sketch; at \<open>1\<close> and at \<open>-1\<close> it raises
  \<open>ZeroDivisionError\<close> instead.
\<close>

theorem calculate_metrics_formulas:
  assumes "hll < length heap"
  shows "(relative_error \<noteq> 1 \<and> relative_error \<noteq> - 1 \<longrightarrow>
            fst (calculate_metrics lib heap hll relative_error) =
              Inr (real (lib_len lib (heap ! hll)) / (1 + relative_error),
                   lib_len lib (heap ! hll),
                   real (lib_len lib (heap ! hll)) / (1 - relative_error),
                   relative_error / (1 + relative_error) * real (lib_len lib (heap ! hll))))
       \<and> (relative_error = 1 \<or> relative_error = - 1 \<longrightarrow>
            fst (calculate_metrics lib heap hll relative_error) = Inl ZeroDivisionError)"
  using assms
  by (simp add: calculate_metrics_defined calculate_metrics_zero_division)

text \<open>The scenario of the specification: \<open>n = 1000\<close> and a relative error of \<open>0.01\<close>.\<close>

theorem calculate_metrics_formulas_witness:
  "fst (calculate_metrics (trace_lib\<lparr>lib_len := \<lambda>log. 1000\<rparr>) [[]] 0 0.01) =
     Inr (1000 / (1 + 0.01), 1000, 1000 / (1 - 0.01), 0.01 / (1 + 0.01) * 1000)
   \<and> \<bar>1000 / (1 + 0.01) - 990.1\<bar> < (0.01 :: real)
   \<and> \<bar>1000 / (1 - 0.01) - 1010.1\<bar> < (0.01 :: real)
   \<and> \<bar>0.01 / (1 + 0.01) * 1000 - 9.9\<bar> < (0.01 :: real)"
  using calculate_metrics_formulas [of 0 "[[]]" "0.01" "trace_lib\<lparr>lib_len := \<lambda>log. 1000\<rparr>"]
  by simp

text \<open>At a relative error of \<open>1\<close> no quadruple is returned.\<close>

theorem calculate_metrics_at_one_counterexample:
  "fst (calculate_metrics trace_lib [[''a'']] 0 1) = Inl ZeroDivisionError
   \<and> fst (calculate_metrics trace_lib [[''a'']] 0 1)
       \<noteq> Inr (1 / (1 + 1), 1, 1 / (1 - 1), 1 / (1 + 1) * 1)"
  by (simp add: calculate_metrics_def trace_lib_def)

text \<open>
  C3, as the code has it. There is no check of the relative error: at \<open>1\<close> the call raises
  Python's \<open>ZeroDivisionError\<close>, above \<open>1\<close> it returns the quadruple, whose upper bound
  \<open>n / (1 - \<epsilon>)\<close> is then not positive; it never raises \<open>InvalidParameter\<close>.
\<close>

theorem calculate_metrics_no_parameter_check:
  assumes "hll < length heap"
  shows "(relative_error = 1 \<longrightarrow>
            calculate_metrics lib heap hll relative_error = (Inl ZeroDivisionError, heap))
       \<and> (1 < relative_error \<longrightarrow>
            (\<exists>lower upper abs_error.
               calculate_metrics lib heap hll relative_error =
                 (Inr (lower, lib_len lib (heap ! hll), upper, abs_error), heap)
               \<and> upper = real (lib_len lib (heap ! hll)) / (1 - relative_error)
               \<and> upper \<le> 0))
       \<and> fst (calculate_metrics lib heap hll relative_error) \<noteq> Inl InvalidParameter"
proof (intro conjI impI)
  assume "relative_error = 1"
  with assms show "calculate_metrics lib heap hll relative_error = (Inl ZeroDivisionError, heap)"
    by (simp add: calculate_metrics_zero_division)
next
  assume gt: "1 < relative_error"
  have "real (lib_len lib (heap ! hll)) / (1 - relative_error) \<le> 0"
    using gt by (simp add: divide_nonneg_neg divide_le_0_iff)
  with assms gt show "\<exists>lower upper abs_error.
               calculate_metrics lib heap hll relative_error =
                 (Inr (lower, lib_len lib (heap ! hll), upper, abs_error), heap)
               \<and> upper = real (lib_len lib (heap ! hll)) / (1 - relative_error)
               \<and> upper \<le> 0"
    by (simp add: calculate_metrics_defined)
next
  show "fst (calculate_metrics lib heap hll relative_error) \<noteq> Inl InvalidParameter"
    by (simp add: calculate_metrics_def Let_def)
qed

theorem calculate_metrics_no_parameter_check_witness:
  "calculate_metrics trace_lib [[''a'', ''b'', ''c'']] 0 1 = (Inl ZeroDivisionError, [[''a'', ''b'', ''c'']])
   \<and> (\<exists>lower upper abs_error.
         calculate_metrics trace_lib [[''a'', ''b'', ''c'']] 0 2 =
           (Inr (lower, 3, upper, abs_error), [[''a'', ''b'', ''c'']]) \<and> upper = - 3)"
  using calculate_metrics_no_parameter_check [of 0 "[[''a'', ''b'', ''c'']]" 1 trace_lib]
    calculate_metrics_no_parameter_check [of 0 "[[''a'', ''b'', ''c'']]" 2 trace_lib]
  by (simp add: trace_lib_def numeral_3_eq_3)

text \<open>At a relative error of \<open>2\<close> the call returns.\<close>

theorem calculate_metrics_above_one_counterexample:
  "fst (calculate_metrics trace_lib [[''a'', ''b'', ''c'']] 0 2) = Inr (1, 3, - 3, 2)
   \<and> fst (calculate_metrics trace_lib [[''a'', ''b'', ''c'']] 0 2) \<noteq> Inl InvalidParameter"
  by (simp add: calculate_metrics_def trace_lib_def)

text \<open>
  C10. For every sketch and every relative error strictly between \<open>0\<close> and \<open>1\<close>,
  \<open>calculate_metrics\<close> returns, and \<open>lower_bound \<le> estimate \<le> upper_bound\<close> and
  \<open>0 \<le> abs_error\<close>.
\<close>

theorem calculate_metrics_ordered:
  assumes "0 < relative_error" "relative_error < 1" "hll < length heap"
  shows "\<exists>lower upper abs_error.
           calculate_metrics lib heap hll relative_error =
             (Inr (lower, lib_len lib (heap ! hll), upper, abs_error), heap)
           \<and> lower \<le> real (lib_len lib (heap ! hll))
           \<and> real (lib_len lib (heap ! hll)) \<le> upper
           \<and> 0 \<le> abs_error"
proof -
  let ?n = "real (lib_len lib (heap ! hll))"
  have n: "0 \<le> ?n" by simp
  have "?n * 1 \<le> ?n * (1 + relative_error)"
    using n assms(1) by (intro mult_left_mono) simp_all
  then have lo: "1 / (1 + relative_error) * ?n \<le> ?n"
    using assms(1) by (simp add: pos_divide_le_eq)
  have "?n * (1 - relative_error) \<le> ?n * 1"
    using n assms(1) by (intro mult_left_mono) simp_all
  then have up: "?n \<le> 1 / (1 - relative_error) * ?n"
    using assms(2) by (simp add: pos_le_divide_eq)
  have ae: "0 \<le> relative_error / (1 + relative_error) * ?n"
    using assms(1) by simp
  show ?thesis
    using assms lo up ae by (simp add: calculate_metrics_defined)
qed

theorem calculate_metrics_ordered_witness:
  "\<exists>lower upper abs_error.
     calculate_metrics trace_lib [[''a'', ''b'', ''c'']] 0 0.01 =
       (Inr (lower, 3, upper, abs_error), [[''a'', ''b'', ''c'']])
     \<and> lower \<le> 3 \<and> 3 \<le> upper \<and> 0 \<le> abs_error"
  using calculate_metrics_ordered [of "0.01" 0 "[[''a'', ''b'', ''c'']]" trace_lib]
  by (simp add: trace_lib_def numeral_3_eq_3)

section \<open>Building, merging and the script: properties\<close>

lemma fold_add_at:
  "r < length hp \<Longrightarrow>
   fold (\<lambda>x hp. hp[r := lib_add lib x (hp ! r)]) xs hp = hp[r := fold (lib_add lib) xs (hp ! r)]"
  by (induction xs arbitrary: hp) simp_all

lemma create_hll_result:
  assumes "lib_new lib e = Inr fresh" "find_substrings_from_file fs filename = Inr substrings"
  shows "create_hll lib fs heap filename e =
    (Inr (length heap), heap @ [fold (lib_add lib) ([] # substrings) fresh])"
  using assms by (simp add: create_hll_def Let_def fold_add_at)

lemma merge_step_frame:
  assumes "merge_step lib heap en dk = (r, heap')" "a < length heap"
  shows "heap' ! a = heap ! a"
  using assms
  by (auto simp: merge_step_def deepcopy_def nth_append split: if_splits sum.splits)

lemma merge_step_result:
  assumes "merge_step lib heap en dk = (Inr c, heap')"
  shows "c = length heap \<and> en < length heap \<and> dk < length heap
       \<and> length heap' = Suc (length heap)
       \<and> lib_update lib (heap ! en) (heap ! dk) = Inr (heap' ! c)"
  using assms
  by (auto simp: merge_step_def deepcopy_def nth_append split: if_splits sum.splits)

lemma merge_step_take:
  assumes "merge_step lib heap en dk = (r, heap')"
  shows "take (length heap) heap' = heap"
  using assms
  by (auto simp: merge_step_def deepcopy_def split: if_splits sum.splits)

text \<open>
  C5. The merge step leaves every object that existed before it, the two input sketches
  among them, as it was: the merged sketch is a new object, the copy of \<open>hll_en\<close>
  updated with \<open>hll_dk\<close>.
\<close>

theorem merge_step_keeps_inputs:
  assumes "merge_step lib heap en dk = (r, heap')" "en < length heap" "dk < length heap"
  shows "heap' ! en = heap ! en \<and> heap' ! dk = heap ! dk
       \<and> take (length heap) heap' = heap
       \<and> (\<forall>c. r = Inr c \<longrightarrow>
             c = length heap \<and> lib_update lib (heap ! en) (heap ! dk) = Inr (heap' ! c))"
  using assms merge_step_frame [OF assms(1)] merge_step_take [OF assms(1)]
    merge_step_result [of lib heap en dk _ heap']
  by auto

theorem merge_step_keeps_inputs_witness:
  "merge_step (spec_lib (\<lambda>item. 0) (\<lambda>s. 0))
      [\<lparr>precision = 2, registers = [0, 3, 0, 1]\<rparr>, \<lparr>precision = 2, registers = [2, 0, 0, 5]\<rparr>] 0 1 =
    (Inr 2,
     [\<lparr>precision = 2, registers = [0, 3, 0, 1]\<rparr>, \<lparr>precision = 2, registers = [2, 0, 0, 5]\<rparr>,
      \<lparr>precision = 2, registers = [2, 3, 0, 5]\<rparr>])
   \<and> sketch_merge \<lparr>precision = 2, registers = [0, 3, 0, 1]\<rparr> \<lparr>precision = 2, registers = [2, 0, 0, 5]\<rparr>
       = Inr \<lparr>precision = 2, registers = [2, 3, 0, 5]\<rparr>"
proof -
  let ?heap = "[\<lparr>precision = 2, registers = [0, 3, 0, 1]\<rparr>, \<lparr>precision = 2, registers = [2, 0, 0, 5 :: nat]\<rparr>]"
  let ?lib = "spec_lib (\<lambda>item. 0) (\<lambda>s. 0)"
  have run: "merge_step ?lib ?heap 0 1 =
      (Inr 2, ?heap @ [\<lparr>precision = 2, registers = [2, 3, 0, 5]\<rparr>])"
    by (simp add: merge_step_def deepcopy_def spec_lib_def sketch_merge_def)
  have "lib_update ?lib (?heap ! 0) (?heap ! 1) = Inr ((?heap @ [\<lparr>precision = 2, registers = [2, 3, 0, 5]\<rparr>]) ! 2)"
    using merge_step_keeps_inputs [OF run] by simp
  with run show ?thesis
    by (simp add: spec_lib_def)
qed

lemma obtain_substrings_nonempty: "[] \<notin> set (obtain_substrings w)"
  by (simp add: set_obtain_substrings)

text \<open>
  C9. Whatever the file holds, the items \<open>create_hll\<close> adds to the new sketch are the
  empty string first and then the substrings of the lines; the empty string is not one of
  the substrings, so the distinct items are the distinct substrings and one more, and the
  sketch has received an item even when the file is empty.
\<close>

theorem create_hll_adds_empty_string:
  assumes "find_substrings_from_file fs filename = Inr substrings"
  shows "\<exists>log. create_hll trace_lib fs heap filename relative_error =
                 (Inr (length heap), heap @ [log])
           \<and> log = [] # substrings
           \<and> [] \<notin> set substrings
           \<and> set log = insert [] (set substrings)
           \<and> card (set log) = card (set substrings) + 1"
proof -
  have "fold (lib_add trace_lib) xs log = log @ xs" for xs log
    by (induction xs arbitrary: log) (simp_all add: trace_lib_def)
  then have "create_hll trace_lib fs heap filename relative_error =
      (Inr (length heap), heap @ [[] # substrings])"
    using assms create_hll_result [of trace_lib relative_error "[]" fs filename substrings heap]
    by (simp add: trace_lib_def)
  moreover have "[] \<notin> set substrings"
    using assms
    by (auto simp: find_substrings_from_file_def obtain_substrings_nonempty split: sum.splits)
  ultimately show ?thesis
    by simp
qed

theorem create_hll_adds_empty_string_witness:
  "create_hll trace_lib [''words.txt'' \<mapsto> Utf8 ''''] [] ''words.txt'' 0.01 = (Inr 0, [['''']])
   \<and> create_hll trace_lib [''words.txt'' \<mapsto> Utf8 ''ab''] [] ''words.txt'' 0.01
       = (Inr 0, [['''', ''a'', ''ab'', ''b'']])"
proof -
  have a: "find_substrings_from_file [''words.txt'' \<mapsto> Utf8 ''''] ''words.txt'' = Inr []"
    by (simp add: find_substrings_from_file_def read_file_def)
  have b: "find_substrings_from_file [''words.txt'' \<mapsto> Utf8 ''ab''] ''words.txt'' = Inr [''a'', ''ab'', ''b'']"
    by (simp add: find_substrings_from_file_def read_file_def strip_def lstrip_def rstrip_def
        isspace_def LF_def CR_def obtain_substrings_def py_slice_def upt_rec)
  show ?thesis
    using create_hll_adds_empty_string [OF a, of "[]" "0.01"]
      create_hll_adds_empty_string [OF b, of "[]" "0.01"]
    by simp
qed

lemma calculate_metrics_same_heap:
  "calculate_metrics lib heap hll e = (r, heap') \<Longrightarrow> heap' = heap"
  by (auto simp: calculate_metrics_def Let_def split: if_splits)

lemma calculate_metrics_local:
  assumes "calculate_metrics lib heap hll e = (Inr q, heap)"
    "hll < length heap'" "heap' ! hll = heap ! hll"
  shows "calculate_metrics lib heap' hll e = (Inr q, heap')"
  using assms by (auto simp: calculate_metrics_def Let_def split: if_splits)

lemma calculate_metrics_valid:
  "calculate_metrics lib heap hll e = (Inr q, heap') \<Longrightarrow> hll < length heap"
  by (auto simp: calculate_metrics_def Let_def split: if_splits)

lemma script_success:
  assumes "script lib fs heap = (Inr st, heap')"
  shows "\<exists>heap2 dk_low dk_upp en_low en_upp.
      calculate_metrics lib heap2 (hll_dk st) 0.01 =
        (Inr (dk_low, fst (snd (dk_metrics st)), dk_upp, dk_abs_err st), heap2)
    \<and> calculate_metrics lib heap2 (hll_en st) 0.01 =
        (Inr (en_low, fst (snd (en_metrics st)), en_upp, en_abs_err st), heap2)
    \<and> merge_step lib heap2 (hll_en st) (hll_dk st) = (Inr (hll_combined st), heap')
    \<and> comb_abs_err st = dk_abs_err st + en_abs_err st
    \<and> comb_est st = lib_len lib (heap' ! hll_combined st)
    \<and> comb_low st = real (lib_len lib (heap' ! hll_combined st)) - comb_abs_err st
    \<and> comb_upp st = real (lib_len lib (heap' ! hll_combined st)) + comb_abs_err st
    \<and> printed st ! 2 = (''Combined'', comb_low st, comb_est st, comb_upp st)
    \<and> length (printed st) = 3"
proof -
  from assms obtain dk heap1 en heap2 dk_low dk_n dk_upp dk_err heap3
      en_low en_n en_upp en_err heap4 combined where
    c1: "create_hll lib fs heap ''words_danish.txt'' 0.01 = (Inr dk, heap1)" and
    c2: "create_hll lib fs heap1 ''words_english.txt'' 0.01 = (Inr en, heap2)" and
    m1: "calculate_metrics lib heap2 dk 0.01 = (Inr (dk_low, dk_n, dk_upp, dk_err), heap3)" and
    m2: "calculate_metrics lib heap3 en 0.01 = (Inr (en_low, en_n, en_upp, en_err), heap4)" and
    ms: "merge_step lib heap4 en dk = (Inr combined, heap')" and
    st: "st = \<lparr>hll_dk = dk, hll_en = en, hll_combined = combined,
              dk_metrics = (dk_low, dk_n, dk_upp), dk_abs_err = dk_err,
              en_metrics = (en_low, en_n, en_upp), en_abs_err = en_err,
              comb_abs_err = dk_err + en_err,
              comb_low = real (lib_len lib (heap' ! combined)) - (dk_err + en_err),
              comb_est = lib_len lib (heap' ! combined),
              comb_upp = real (lib_len lib (heap' ! combined)) + (dk_err + en_err),
              printed = [(''Danish'', dk_low, dk_n, dk_upp), (''English'', en_low, en_n, en_upp),
                (''Combined'', real (lib_len lib (heap' ! combined)) - (dk_err + en_err),
                 lib_len lib (heap' ! combined),
                 real (lib_len lib (heap' ! combined)) + (dk_err + en_err))]\<rparr>"
    by (auto simp: script_def Let_def split: prod.splits sum.splits)
  have h3: "heap3 = heap2"
    using m1 by (rule calculate_metrics_same_heap)
  have h4: "heap4 = heap3"
    using m2 by (rule calculate_metrics_same_heap)
  show ?thesis
    using m1 m2 ms unfolding h3 h4 st by (intro exI [of _ heap2]) simp
qed

text \<open>
  C4. When the script ends, the combined absolute error is the sum of the absolute errors
  that \<open>calculate_metrics\<close> gives for the Danish and the English sketch, and the combined
  lower and upper bounds are the length of the merged sketch minus and plus that sum; the
  merged sketch is the English sketch updated with the Danish one.
\<close>

theorem script_combined_report:
  assumes "script lib fs heap = (Inr st, heap')"
  shows "comb_abs_err st = dk_abs_err st + en_abs_err st
       \<and> comb_low st = real (comb_est st) - comb_abs_err st
       \<and> comb_upp st = real (comb_est st) + comb_abs_err st
       \<and> comb_est st = lib_len lib (heap' ! hll_combined st)
       \<and> lib_update lib (heap' ! hll_en st) (heap' ! hll_dk st) = Inr (heap' ! hll_combined st)
       \<and> last (printed st) = (''Combined'', comb_low st, comb_est st, comb_upp st)
       \<and> (\<exists>lower n upper.
            calculate_metrics lib heap' (hll_dk st) 0.01 = (Inr (lower, n, upper, dk_abs_err st), heap'))
       \<and> (\<exists>lower n upper.
            calculate_metrics lib heap' (hll_en st) 0.01 = (Inr (lower, n, upper, en_abs_err st), heap'))"
proof -
  from script_success [OF assms] obtain heap2 dk_low dk_upp en_low en_upp where all:
    "calculate_metrics lib heap2 (hll_dk st) 0.01 =
        (Inr (dk_low, fst (snd (dk_metrics st)), dk_upp, dk_abs_err st), heap2)
    \<and> calculate_metrics lib heap2 (hll_en st) 0.01 =
        (Inr (en_low, fst (snd (en_metrics st)), en_upp, en_abs_err st), heap2)
    \<and> merge_step lib heap2 (hll_en st) (hll_dk st) = (Inr (hll_combined st), heap')
    \<and> comb_abs_err st = dk_abs_err st + en_abs_err st
    \<and> comb_est st = lib_len lib (heap' ! hll_combined st)
    \<and> comb_low st = real (lib_len lib (heap' ! hll_combined st)) - comb_abs_err st
    \<and> comb_upp st = real (lib_len lib (heap' ! hll_combined st)) + comb_abs_err st
    \<and> printed st ! 2 = (''Combined'', comb_low st, comb_est st, comb_upp st)
    \<and> length (printed st) = 3"
    by (elim exE) (rule that)
  from all have m1: "calculate_metrics lib heap2 (hll_dk st) 0.01 =
        (Inr (dk_low, fst (snd (dk_metrics st)), dk_upp, dk_abs_err st), heap2)"
    by (elim conjE)
  from all have m2: "calculate_metrics lib heap2 (hll_en st) 0.01 =
        (Inr (en_low, fst (snd (en_metrics st)), en_upp, en_abs_err st), heap2)"
    by (elim conjE)
  from all have ms: "merge_step lib heap2 (hll_en st) (hll_dk st) = (Inr (hll_combined st), heap')"
    by (elim conjE)
  from all have err: "comb_abs_err st = dk_abs_err st + en_abs_err st"
    by (elim conjE)
  from all have est: "comb_est st = lib_len lib (heap' ! hll_combined st)"
    by (elim conjE)
  from all have low: "comb_low st = real (lib_len lib (heap' ! hll_combined st)) - comb_abs_err st"
    by (elim conjE)
  from all have upp: "comb_upp st = real (lib_len lib (heap' ! hll_combined st)) + comb_abs_err st"
    by (elim conjE)
  from all have pr: "printed st ! 2 = (''Combined'', comb_low st, comb_est st, comb_upp st)"
    by (elim conjE)
  from all have len: "length (printed st) = 3"
    by (elim conjE)
  have dk: "hll_dk st < length heap2"
    using m1 by (rule calculate_metrics_valid)
  have en: "hll_en st < length heap2"
    using m2 by (rule calculate_metrics_valid)
  have same_dk: "heap' ! hll_dk st = heap2 ! hll_dk st"
    using ms dk by (rule merge_step_frame)
  have same_en: "heap' ! hll_en st = heap2 ! hll_en st"
    using ms en by (rule merge_step_frame)
  note res = merge_step_result [OF ms]
  from res have longer: "length heap' = Suc (length heap2)"
    by (elim conjE)
  from res have merged:
    "lib_update lib (heap2 ! hll_en st) (heap2 ! hll_dk st) = Inr (heap' ! hll_combined st)"
    by (elim conjE)
  have c1: "calculate_metrics lib heap' (hll_dk st) 0.01 =
      (Inr (dk_low, fst (snd (dk_metrics st)), dk_upp, dk_abs_err st), heap')"
    using m1 by (rule calculate_metrics_local) (simp_all add: dk same_dk longer less_Suc_eq)
  have c2: "calculate_metrics lib heap' (hll_en st) 0.01 =
      (Inr (en_low, fst (snd (en_metrics st)), en_upp, en_abs_err st), heap')"
    using m2 by (rule calculate_metrics_local) (simp_all add: en same_en longer less_Suc_eq)
  have l: "last (printed st) = printed st ! 2"
    using len by (cases "printed st" rule: rev_cases) (simp_all add: nth_append)
  show ?thesis
  proof (intro conjI)
    show "comb_abs_err st = dk_abs_err st + en_abs_err st"
      by (rule err)
    show "comb_low st = real (comb_est st) - comb_abs_err st"
      by (simp only: low est)
    show "comb_upp st = real (comb_est st) + comb_abs_err st"
      by (simp only: upp est)
    show "comb_est st = lib_len lib (heap' ! hll_combined st)"
      by (rule est)
    show "lib_update lib (heap' ! hll_en st) (heap' ! hll_dk st) = Inr (heap' ! hll_combined st)"
      by (simp only: same_en same_dk merged)
    show "last (printed st) = (''Combined'', comb_low st, comb_est st, comb_upp st)"
      by (simp only: l pr)
    show "\<exists>lower n upper.
        calculate_metrics lib heap' (hll_dk st) 0.01 = (Inr (lower, n, upper, dk_abs_err st), heap')"
      using c1 by blast
    show "\<exists>lower n upper.
        calculate_metrics lib heap' (hll_en st) 0.01 = (Inr (lower, n, upper, en_abs_err st), heap')"
      using c2 by blast
  qed
qed

theorem script_combined_report_witness:
  "\<exists>st heap'.
     script trace_lib [''words_danish.txt'' \<mapsto> Utf8 ''ab'', ''words_english.txt'' \<mapsto> Utf8 ''b''] []
       = (Inr st, heap')
     \<and> dk_abs_err st = 4 / 101 \<and> en_abs_err st = 2 / 101 \<and> comb_abs_err st = 6 / 101
     \<and> comb_est st = 4 \<and> comb_low st = 398 / 101 \<and> comb_upp st = 410 / 101
     \<and> last (printed st) = (''Combined'', 398 / 101, 4, 410 / 101)"
proof -
  let ?st = "\<lparr>hll_dk = 0, hll_en = 1, hll_combined = 2,
           dk_metrics = (400 / 101, 4, 400 / 99), dk_abs_err = 4 / 101,
           en_metrics = (200 / 101, 2, 200 / 99), en_abs_err = 2 / 101,
           comb_abs_err = 6 / 101, comb_low = 398 / 101, comb_est = 4, comb_upp = 410 / 101,
           printed = [(''Danish'', 400 / 101, 4, 400 / 99), (''English'', 200 / 101, 2, 200 / 99),
                      (''Combined'', 398 / 101, 4, 410 / 101)]\<rparr>"
  let ?heap = "[[[], ''a'', ''ab'', ''b''], [[], ''b''], [[], ''b'', [], ''a'', ''ab'', ''b'']]"
  have run: "script trace_lib
      [''words_danish.txt'' \<mapsto> Utf8 ''ab'', ''words_english.txt'' \<mapsto> Utf8 ''b''] [] = (Inr ?st, ?heap)"
    by (simp add: script_def create_hll_def find_substrings_from_file_def read_file_def
        strip_def lstrip_def rstrip_def isspace_def LF_def CR_def obtain_substrings_def
        py_slice_def upt_rec calculate_metrics_def merge_step_def deepcopy_def trace_lib_def
        Let_def)
  have "comb_abs_err ?st = dk_abs_err ?st + en_abs_err ?st
      \<and> comb_low ?st = real (comb_est ?st) - comb_abs_err ?st
      \<and> comb_upp ?st = real (comb_est ?st) + comb_abs_err ?st"
    using script_combined_report [OF run] by (elim conjE) (intro conjI)
  with run show ?thesis
    by (intro exI [of _ ?st] exI [of _ ?heap]) simp
qed

section \<open>Reading lines: properties\<close>

lemma read_file_failures:
  "fs filename = None \<Longrightarrow> read_file fs filename = Inl OSError"
  "fs filename = Some NotUtf8 \<Longrightarrow> read_file fs filename = Inl UnicodeDecodeError"
  by (simp_all add: read_file_def)

lemma isspace_LF: "isspace LF"
  by (simp add: isspace_def LF_def)

lemma rstrip_decompose: "s = rstrip s @ rev (takeWhile isspace (rev s))"
proof -
  have "rev (dropWhile isspace (rev s)) @ rev (takeWhile isspace (rev s)) =
      rev (takeWhile isspace (rev s) @ dropWhile isspace (rev s))"
    by (simp only: rev_append)
  also have "\<dots> = rev (rev s)"
    by (simp only: takeWhile_dropWhile_id)
  also have "\<dots> = s"
    by simp
  finally show ?thesis
    by (simp only: rstrip_def)
qed

lemma strip_decompose:
  "s = takeWhile isspace s @ strip s @ rev (takeWhile isspace (rev (lstrip s)))"
proof -
  have "s = takeWhile isspace s @ lstrip s"
    by (simp add: lstrip_def)
  also have "lstrip s = strip s @ rev (takeWhile isspace (rev (lstrip s)))"
    unfolding strip_def by (rule rstrip_decompose)
  finally show ?thesis .
qed

lemma takeWhile_all: "\<forall>c \<in> set (takeWhile P xs). P c"
  by (auto dest: set_takeWhileD)

lemma strip_surroundings:
  "\<exists>pre suf. s = pre @ strip s @ suf \<and> (\<forall>c \<in> set pre. isspace c) \<and> (\<forall>c \<in> set suf. isspace c)"
proof (intro exI conjI)
  show "s = takeWhile isspace s @ strip s @ rev (takeWhile isspace (rev (lstrip s)))"
    by (rule strip_decompose)
  show "\<forall>c \<in> set (takeWhile isspace s). isspace c"
    by (rule takeWhile_all)
  show "\<forall>c \<in> set (rev (takeWhile isspace (rev (lstrip s)))). isspace c"
    using takeWhile_all [of isspace "rev (lstrip s)"] by simp
qed

lemma rstrip_last: "rstrip s \<noteq> [] \<Longrightarrow> \<not> isspace (last (rstrip s))"
  by (simp add: rstrip_def last_rev hd_dropWhile)

lemma rstrip_hd: "rstrip s \<noteq> [] \<Longrightarrow> hd (rstrip s) = hd s"
  using rstrip_decompose [of s] by (metis hd_append2)

lemma lstrip_hd: "lstrip s \<noteq> [] \<Longrightarrow> \<not> isspace (hd (lstrip s))"
  by (simp add: lstrip_def hd_dropWhile)

lemma rstrip_Nil: "rstrip [] = []"
  by (simp add: rstrip_def)

lemma strip_ends:
  assumes "strip s \<noteq> []"
  shows "\<not> isspace (hd (strip s)) \<and> \<not> isspace (last (strip s))"
proof -
  have ne: "lstrip s \<noteq> []"
    using assms by (auto simp: strip_def rstrip_Nil)
  have "hd (strip s) = hd (lstrip s)"
    using assms unfolding strip_def by (rule rstrip_hd)
  then have "\<not> isspace (hd (strip s))"
    using lstrip_hd [OF ne] by simp
  moreover have "\<not> isspace (last (strip s))"
    using assms unfolding strip_def by (rule rstrip_last)
  ultimately show ?thesis by simp
qed

lemma strip_clean:
  assumes "b = [] \<or> (\<not> isspace (hd b) \<and> \<not> isspace (last b))"
  shows "strip b = b" and "strip (b @ [LF]) = b"
proof -
  show "strip b = b"
  proof (cases b rule: rev_cases)
    case Nil
    then show ?thesis by (simp add: strip_def lstrip_def rstrip_def)
  next
    case (snoc ys y)
    with assms have "\<not> isspace (hd (ys @ [y]))" "\<not> isspace y" by simp_all
    then have "lstrip (ys @ [y]) = ys @ [y]"
      by (cases ys) (simp_all add: lstrip_def)
    then show ?thesis
      using \<open>\<not> isspace y\<close> by (simp add: snoc strip_def rstrip_def)
  qed
  show "strip (b @ [LF]) = b"
  proof (cases b rule: rev_cases)
    case Nil
    then show ?thesis by (simp add: strip_def lstrip_def rstrip_def isspace_LF)
  next
    case (snoc ys y)
    with assms have "\<not> isspace (hd (ys @ [y]))" "\<not> isspace y" by simp_all
    then have "lstrip (ys @ [y] @ [LF]) = ys @ [y] @ [LF]"
      by (cases ys) (simp_all add: lstrip_def)
    then show ?thesis
      using \<open>\<not> isspace y\<close> by (simp add: snoc strip_def rstrip_def isspace_LF)
  qed
qed

lemma strip_drop_line_terminator:
  assumes "drop_line_terminator l = [] \<or>
    (\<not> isspace (hd (drop_line_terminator l)) \<and> \<not> isspace (last (drop_line_terminator l)))"
  shows "strip l = drop_line_terminator l"
proof (cases "l \<noteq> [] \<and> last l = LF")
  case True
  then have l: "l = butlast l @ [LF]"
    by (metis append_butlast_last_id)
  have d: "drop_line_terminator l = butlast l"
    using True by (simp add: drop_line_terminator_def)
  have "strip (butlast l @ [LF]) = butlast l"
    using assms unfolding d by (rule strip_clean(2))
  with l d show ?thesis by simp
next
  case False
  then have d: "drop_line_terminator l = l"
    by (auto simp: drop_line_terminator_def)
  show ?thesis
    using assms unfolding d by (rule strip_clean(1))
qed

text \<open>
  C6, as the code has it. For every file that can be opened and is valid UTF-8,
  \<open>read_file\<close> yields one
  string per line, the line without its leading and its trailing whitespace (spaces, tabs
  and the line terminator alike): the line is the yielded string between two runs of
  whitespace, the yielded string neither starts nor ends with whitespace, and it is the
  line with exactly the terminator removed whenever the line has no other whitespace at
  its ends.
\<close>

theorem read_file_strips_whitespace:
  assumes "fs filename = Some (Utf8 text)"
  shows "\<exists>ys. read_file fs filename = Inr ys
     \<and> list_all2 (\<lambda>line y.
          (\<exists>pre suf. line = pre @ y @ suf
             \<and> (\<forall>c \<in> set pre. isspace c) \<and> (\<forall>c \<in> set suf. isspace c))
          \<and> (y \<noteq> [] \<longrightarrow> \<not> isspace (hd y) \<and> \<not> isspace (last y))
          \<and> (drop_line_terminator line = []
               \<or> (\<not> isspace (hd (drop_line_terminator line))
                   \<and> \<not> isspace (last (drop_line_terminator line)))
             \<longrightarrow> y = drop_line_terminator line))
        (file_lines (translate_newlines text)) ys"
proof (intro exI conjI)
  show "read_file fs filename = Inr (map strip (file_lines (translate_newlines text)))"
    using assms by (simp add: read_file_def)
  show "list_all2 (\<lambda>line y.
          (\<exists>pre suf. line = pre @ y @ suf
             \<and> (\<forall>c \<in> set pre. isspace c) \<and> (\<forall>c \<in> set suf. isspace c))
          \<and> (y \<noteq> [] \<longrightarrow> \<not> isspace (hd y) \<and> \<not> isspace (last y))
          \<and> (drop_line_terminator line = []
               \<or> (\<not> isspace (hd (drop_line_terminator line))
                   \<and> \<not> isspace (last (drop_line_terminator line)))
             \<longrightarrow> y = drop_line_terminator line))
        (file_lines (translate_newlines text)) (map strip (file_lines (translate_newlines text)))"
    unfolding list_all2_map2
  proof (rule list_all2_refl, intro conjI impI)
    fix line
    show "\<exists>pre suf. line = pre @ strip line @ suf
        \<and> (\<forall>c \<in> set pre. isspace c) \<and> (\<forall>c \<in> set suf. isspace c)"
      by (rule strip_surroundings)
    show "\<not> isspace (hd (strip line))" if "strip line \<noteq> []"
      using strip_ends [OF that] by simp
    show "\<not> isspace (last (strip line))" if "strip line \<noteq> []"
      using strip_ends [OF that] by simp
    show "strip line = drop_line_terminator line"
      if "drop_line_terminator line = []
          \<or> (\<not> isspace (hd (drop_line_terminator line))
              \<and> \<not> isspace (last (drop_line_terminator line)))"
      using that by (rule strip_drop_line_terminator)
  qed
qed

text \<open>The line \<open>" a \\n"\<close> is yielded as \<open>"a"\<close>, not as \<open>" a "\<close>.\<close>

theorem read_file_keeps_spaces_counterexample:
  "read_file [''words.txt'' \<mapsto> Utf8 ('' a '' @ [LF])] ''words.txt'' = Inr [''a'']
   \<and> map drop_line_terminator (file_lines (translate_newlines ('' a '' @ [LF]))) = ['' a '']"
  by (simp add: read_file_def strip_def lstrip_def rstrip_def isspace_def LF_def CR_def
      drop_line_terminator_def)

theorem read_file_strips_whitespace_witness:
  "\<exists>ys. read_file [''words.txt'' \<mapsto> Utf8 ('' a '' @ [LF] @ ''bc'')] ''words.txt'' = Inr ys
     \<and> ys = [''a'', ''bc'']
     \<and> file_lines (translate_newlines ('' a '' @ [LF] @ ''bc'')) = ['' a '' @ [LF], ''bc'']
     \<and> list_all2 (\<lambda>line y.
          (\<exists>pre suf. line = pre @ y @ suf
             \<and> (\<forall>c \<in> set pre. isspace c) \<and> (\<forall>c \<in> set suf. isspace c))
          \<and> (y \<noteq> [] \<longrightarrow> \<not> isspace (hd y) \<and> \<not> isspace (last y))
          \<and> (drop_line_terminator line = []
               \<or> (\<not> isspace (hd (drop_line_terminator line))
                   \<and> \<not> isspace (last (drop_line_terminator line)))
             \<longrightarrow> y = drop_line_terminator line))
        (file_lines (translate_newlines ('' a '' @ [LF] @ ''bc''))) ys"
proof -
  let ?fs = "[''words.txt'' \<mapsto> Utf8 ('' a '' @ [LF] @ ''bc'')]"
  have opened: "?fs ''words.txt'' = Some (Utf8 ('' a '' @ [LF] @ ''bc''))"
    by simp
  have run: "read_file ?fs ''words.txt'' = Inr [''a'', ''bc'']"
    by (simp add: read_file_def strip_def lstrip_def rstrip_def isspace_def LF_def CR_def)
  have split: "file_lines (translate_newlines ('' a '' @ [LF] @ ''bc'')) = ['' a '' @ [LF], ''bc'']"
    by (simp add: LF_def CR_def)
  from read_file_strips_whitespace
      [of ?fs "''words.txt''" "'' a '' @ [LF] @ ''bc''", OF opened] obtain ys where
    ys: "read_file ?fs ''words.txt'' = Inr ys" and
    rel: "list_all2 (\<lambda>line y.
          (\<exists>pre suf. line = pre @ y @ suf
             \<and> (\<forall>c \<in> set pre. isspace c) \<and> (\<forall>c \<in> set suf. isspace c))
          \<and> (y \<noteq> [] \<longrightarrow> \<not> isspace (hd y) \<and> \<not> isspace (last y))
          \<and> (drop_line_terminator line = []
               \<or> (\<not> isspace (hd (drop_line_terminator line))
                   \<and> \<not> isspace (last (drop_line_terminator line)))
             \<longrightarrow> y = drop_line_terminator line))
        (file_lines (translate_newlines ('' a '' @ [LF] @ ''bc''))) ys"
    by (elim exE conjE)
  from ys run have "ys = [''a'', ''bc'']"
    by simp
  with ys split rel show ?thesis
    by (intro exI [of _ ys] conjI)
qed

end
